theory Spec2Isabelle
  imports Main
begin

section \<open>Python strings\<close>

text \<open>
  A Python \<open>str\<close> is a sequence of Unicode code points; \<open>len\<close> counts code points.
  A code point is a natural number here, and \<open>ascii\<close> turns an ASCII literal into one.
\<close>

type_synonym ustring = "nat list"

definition ascii :: "string \<Rightarrow> ustring" where
  "ascii s = map of_char s"

text \<open>
  The characters for which \<open>str.isspace\<close> holds; \<open>str.strip()\<close> and \<open>str.split()\<close>
  without arguments use the same set.
\<close>

definition is_space :: "nat \<Rightarrow> bool" where
  "is_space c \<longleftrightarrow>
     (9 \<le> c \<and> c \<le> 13) \<or> (28 \<le> c \<and> c \<le> 32) \<or> c = 133 \<or> c = 160 \<or> c = 5760 \<or>
     (8192 \<le> c \<and> c \<le> 8202) \<or> c = 8232 \<or> c = 8233 \<or> c = 8239 \<or> c = 8287 \<or> c = 12288"

definition lstrip :: "ustring \<Rightarrow> ustring" where
  "lstrip s = dropWhile is_space s"

definition rstrip :: "ustring \<Rightarrow> ustring" where
  "rstrip s = rev (dropWhile is_space (rev s))"

definition strip :: "ustring \<Rightarrow> ustring" where
  "strip s = rstrip (lstrip s)"

text \<open>\<open>str.isspace\<close>: false on the empty string.\<close>

definition isspace :: "ustring \<Rightarrow> bool" where
  "isspace s \<longleftrightarrow> s \<noteq> [] \<and> list_all is_space s"

text \<open>
  \<open>str.split()\<close> without arguments: runs of whitespace separate the words, and no
  empty word is produced. \<open>cur\<close> is the word being read.
\<close>

fun split_from :: "ustring \<Rightarrow> ustring \<Rightarrow> ustring list" where
  "split_from cur [] = (if cur = [] then [] else [cur])"
| "split_from cur (c # cs) =
     (if is_space c
      then (if cur = [] then split_from [] cs else cur # split_from [] cs)
      else split_from (cur @ [c]) cs)"

definition split :: "ustring \<Rightarrow> ustring list" where
  "split s = split_from [] s"

text \<open>\<open>p in s\<close> on strings: \<open>p\<close> occurs in \<open>s\<close> as a contiguous run.\<close>

fun starts_with :: "ustring \<Rightarrow> ustring \<Rightarrow> bool" where
  "starts_with [] s = True"
| "starts_with (p # ps) [] = False"
| "starts_with (p # ps) (c # cs) = (p = c \<and> starts_with ps cs)"

fun contains :: "ustring \<Rightarrow> ustring \<Rightarrow> bool" where
  "contains p [] = (p = [])"
| "contains p (c # cs) = (starts_with p (c # cs) \<or> contains p cs)"

section \<open>The environment of one run\<close>

text \<open>
  A font object is either the outline font opened at a size or Pillow's built-in default
  font. Opening the font file can fail; measuring text is the drawing library's
  \<open>textbbox\<close> at the origin, which gives (left, top, right, bottom).
\<close>

datatype font = TrueType int | DefaultFont

datatype exn = OSError | ValueError | IndexError | AttributeError | ServiceError | OcrError

type_synonym bbox4 = "int \<times> int \<times> int \<times> int"

definition right :: "bbox4 \<Rightarrow> int" where
  "right b = (case b of (l, t, r, bo) \<Rightarrow> r)"

definition bottom :: "bbox4 \<Rightarrow> int" where
  "bottom b = (case b of (l, t, r, bo) \<Rightarrow> bo)"

section \<open>wrap_text\<close>

text \<open>
  The loop of \<open>wrap_text\<close> over the words, with the state \<open>(lines, current_line)\<close>.
  \<open>tb\<close> is \<open>draw.textbbox((0, 0), _, font=font)\<close> for the font in use.
\<close>

fun wrap_loop :: "(ustring \<Rightarrow> bbox4) \<Rightarrow> int \<Rightarrow> ustring list \<Rightarrow> ustring list \<Rightarrow> ustring
    \<Rightarrow> ustring list \<times> ustring" where
  "wrap_loop tb max_width [] lines current_line = (lines, current_line)"
| "wrap_loop tb max_width (word # words) lines current_line =
     (let test_line = (if current_line = [] then word else current_line @ [32] @ word);
          width = right (tb test_line)
      in if width \<le> max_width
         then wrap_loop tb max_width words lines test_line
         else wrap_loop tb max_width words (lines @ [current_line]) word)"

definition wrap_text :: "ustring \<Rightarrow> (ustring \<Rightarrow> bbox4) \<Rightarrow> int \<Rightarrow> ustring list" where
  "wrap_text text tb max_width =
     (case wrap_loop tb max_width (split text) [] [] of
        (lines, current_line) \<Rightarrow>
          if current_line \<noteq> [] then lines @ [current_line] else lines)"


section \<open>External collaborators\<close>

text \<open>
  Everything the program asks of its libraries and services is a field of \<open>env\<close>:
  \<^item> \<open>ulower s i\<close>: what \<open>str.lower\<close> puts for the non-ASCII code point at position \<open>i\<close>
    of \<open>s\<close> (the Unicode mapping may look at the context and may give several code points);
  \<^item> \<open>ualnum c\<close>: whether the non-ASCII code point \<open>c\<close> matches the regular expression
    \<open>\w\<close>;
  \<^item> \<open>font_file_loads size\<close>: whether \<open>ImageFont.truetype(font_path, size)\<close> succeeds;
  \<^item> \<open>textbbox font s\<close>: \<open>draw.textbbox((0, 0), s, font=font)\<close>;
  \<^item> \<open>reshape s\<close>: \<open>get_display(arabic_reshaper.reshape(s))\<close>;
  \<^item> \<open>chat i s\<close>: the outcome of the chat-completion request made for the region at
    position \<open>i\<close> with user text \<open>s\<close>: an exception, or the contents of the
    returned choices (a content may be missing).
\<close>

record env =
  ulower :: "ustring \<Rightarrow> nat \<Rightarrow> ustring"
  ualnum :: "nat \<Rightarrow> bool"
  font_file_loads :: "int \<Rightarrow> bool"
  textbbox :: "font \<Rightarrow> ustring \<Rightarrow> bbox4"
  reshape :: "ustring \<Rightarrow> ustring"
  chat :: "nat \<Rightarrow> ustring \<Rightarrow> exn + ustring option list"

text \<open>\<open>str.lower\<close>: ASCII capitals move to small letters, other ASCII stays.\<close>

definition lower :: "env \<Rightarrow> ustring \<Rightarrow> ustring" where
  "lower env s =
     concat (map (\<lambda>i. let c = s ! i
                       in if 65 \<le> c \<and> c \<le> 90 then [c + 32]
                          else if c < 128 then [c]
                          else ulower env s i) [0..<length s])"

text \<open>\<open>re.search(r'\w', s)\<close> finds a match.\<close>

definition word_char :: "env \<Rightarrow> nat \<Rightarrow> bool" where
  "word_char env c \<longleftrightarrow>
     (if c < 128
      then (48 \<le> c \<and> c \<le> 57) \<or> (65 \<le> c \<and> c \<le> 90) \<or> c = 95 \<or> (97 \<le> c \<and> c \<le> 122)
      else ualnum env c)"

definition has_word_char :: "env \<Rightarrow> ustring \<Rightarrow> bool" where
  "has_word_char env s = list_ex (word_char env) s"

text \<open>\<open>re.sub(r'[A-Za-z]', '', s)\<close>.\<close>

definition latin_letter :: "nat \<Rightarrow> bool" where
  "latin_letter c \<longleftrightarrow> (65 \<le> c \<and> c \<le> 90) \<or> (97 \<le> c \<and> c \<le> 122)"

definition remove_latin :: "ustring \<Rightarrow> ustring" where
  "remove_latin s = filter (\<lambda>c. \<not> latin_letter c) s"

section \<open>translate_openl\<close>

text \<open>
  \<open>response.choices[0].message.content.strip()\<close> inside \<open>try\<close>; \<open>except Exception\<close>
  returns the argument. An empty list of choices or a missing content raises inside the
  \<open>try\<close> as well. \<open>request\<close> is the chat-completion call.
\<close>

definition translate_openl :: "(ustring \<Rightarrow> exn + ustring option list) \<Rightarrow> ustring \<Rightarrow> ustring" where
  "translate_openl request text =
     (case request text of
        Inl e \<Rightarrow> text
      | Inr choices \<Rightarrow>
          (case choices of
             [] \<Rightarrow> text
           | content # _ \<Rightarrow> (case content of None \<Rightarrow> text | Some c \<Rightarrow> strip c)))"

section \<open>google_ocr\<close>

record ocr_word =
  symbols :: "ustring list"
  vertices :: "(int \<times> int) list"

type_synonym ocr_paragraph = "ocr_word list"
type_synonym ocr_block = "ocr_paragraph list"
type_synonym ocr_page = "ocr_block list"

record response =
  error_message :: ustring
  pages :: "ocr_page list"

record region =
  r_text :: ustring
  r_bbox :: bbox4

text \<open>\<open>max\<close> and \<open>min\<close> of a list raise ValueError on the empty list.\<close>

fun py_max :: "int list \<Rightarrow> exn + int" where
  "py_max [] = Inl ValueError"
| "py_max (x # xs) = Inr (fold max xs x)"

fun py_min :: "int list \<Rightarrow> exn + int" where
  "py_min [] = Inl ValueError"
| "py_min (x # xs) = Inr (fold min xs x)"

definition sentence_text :: "ocr_paragraph \<Rightarrow> ustring" where
  "sentence_text p = concat (map (\<lambda>w. concat (symbols w) @ [32]) p)"

definition x_coords :: "ocr_paragraph \<Rightarrow> int list" where
  "x_coords p = concat (map (\<lambda>w. map fst (vertices w)) p)"

definition y_coords :: "ocr_paragraph \<Rightarrow> int list" where
  "y_coords p = concat (map (\<lambda>w. map snd (vertices w)) p)"

definition clean_text :: "ocr_paragraph \<Rightarrow> ustring" where
  "clean_text p = strip (sentence_text p)"

text \<open>
  The body of the paragraph loop: an exception, \<open>None\<close> for \<open>continue\<close>, or the region
  appended to \<open>sentence_boxes\<close>.
\<close>

definition paragraph_region :: "env \<Rightarrow> ocr_paragraph \<Rightarrow> exn + region option" where
  "paragraph_region env p =
     (case py_max (x_coords p) of Inl e \<Rightarrow> Inl e | Inr xmax \<Rightarrow>
      case py_min (x_coords p) of Inl e \<Rightarrow> Inl e | Inr xmin \<Rightarrow>
      case py_max (y_coords p) of Inl e \<Rightarrow> Inl e | Inr ymax \<Rightarrow>
      case py_min (y_coords p) of Inl e \<Rightarrow> Inl e | Inr ymin \<Rightarrow>
        (let area = (xmax - xmin) * (ymax - ymin)
         in if length (clean_text p) \<le> 6 \<and> area > 40000 then Inr None
            else if \<not> has_word_char env (clean_text p) then Inr None
            else Inr (Some \<lparr>r_text = clean_text p, r_bbox = (xmin, ymin, xmax, ymax)\<rparr>)))"

fun paragraphs_loop :: "env \<Rightarrow> ocr_paragraph list \<Rightarrow> region list \<Rightarrow> exn + region list" where
  "paragraphs_loop env [] sentence_boxes = Inr sentence_boxes"
| "paragraphs_loop env (p # ps) sentence_boxes =
     (case paragraph_region env p of
        Inl e \<Rightarrow> Inl e
      | Inr None \<Rightarrow> paragraphs_loop env ps sentence_boxes
      | Inr (Some r) \<Rightarrow> paragraphs_loop env ps (sentence_boxes @ [r]))"

fun blocks_loop :: "env \<Rightarrow> ocr_block list \<Rightarrow> region list \<Rightarrow> exn + region list" where
  "blocks_loop env [] sentence_boxes = Inr sentence_boxes"
| "blocks_loop env (b # bs) sentence_boxes =
     (case paragraphs_loop env b sentence_boxes of
        Inl e \<Rightarrow> Inl e
      | Inr sentence_boxes' \<Rightarrow> blocks_loop env bs sentence_boxes')"

fun pages_loop :: "env \<Rightarrow> ocr_page list \<Rightarrow> region list \<Rightarrow> exn + region list" where
  "pages_loop env [] sentence_boxes = Inr sentence_boxes"
| "pages_loop env (pg # pgs) sentence_boxes =
     (case blocks_loop env pg sentence_boxes of
        Inl e \<Rightarrow> Inl e
      | Inr sentence_boxes' \<Rightarrow> pages_loop env pgs sentence_boxes')"

text \<open>The OCR service's answer is the argument; the request itself is not modelled.\<close>

definition google_ocr :: "env \<Rightarrow> response \<Rightarrow> exn + region list" where
  "google_ocr env resp =
     (if error_message resp \<noteq> [] then Inl OcrError else pages_loop env (pages resp) [])"


section \<open>erase_sentences_from_image\<close>

definition invalid_phrases :: "ustring list" where
  "invalid_phrases =
     [ascii ''please provide the text'', ascii ''cannot translate the text'',
      ascii ''doesn'' @ [8217] @ ascii ''t convey a clear meaning'',
      ascii ''can'' @ [8217] @ ascii ''t assist with that'',
      ascii ''does not appear to be a coherent phrase'',
      ascii ''I'' @ [39] @ ascii ''m sorry, but I can'' @ [39] @ ascii ''t assist with that.'']"

definition padding_x :: int where
  "padding_x = 12"

definition padding_y :: int where
  "padding_y = 10"

definition min_font_size :: int where
  "min_font_size = 18"

text \<open>
  The canvas is the sequence of drawing calls made on it, oldest first:
  \<open>draw.rectangle([(x0, y0), (x1, y1)], fill=...)\<close> and
  \<open>draw.text((x, y), line, fill=..., font=font)\<close>.
\<close>

datatype colour = White | Black

datatype draw_op =
    Rectangle int int int int colour
  | DrawText int int ustring colour font

text \<open>The padded box of a region, computed alike in both loops.\<close>

definition padded :: "bbox4 \<Rightarrow> bbox4" where
  "padded b =
     (case b of (x0, y0, x1, y1) \<Rightarrow>
        (max 0 (x0 - padding_x), max 0 (y0 - padding_y), x1 + padding_x, y1 + padding_y))"

text \<open>
  \<open>draw.rectangle([(x0, y0), (x1, y1)], fill=fill)\<close>: Pillow raises ValueError when
  \<open>x1 < x0\<close> or \<open>y1 < y0\<close>, and paints nothing then.
\<close>

definition draw_rectangle :: "bbox4 \<Rightarrow> colour \<Rightarrow> exn + draw_op" where
  "draw_rectangle b fill =
     (case b of (x0, y0, x1, y1) \<Rightarrow>
        if x1 < x0 \<or> y1 < y0 then Inl ValueError else Inr (Rectangle x0 y0 x1 y1 fill))"

text \<open>
  The first loop. The result is the exception, if one was raised, and the canvas as it
  is then.
\<close>

fun erase_loop :: "region list \<Rightarrow> draw_op list \<Rightarrow> exn option \<times> draw_op list" where
  "erase_loop [] canvas = (None, canvas)"
| "erase_loop (box # boxes) canvas =
     (case draw_rectangle (padded (r_bbox box)) White of
        Inl e \<Rightarrow> (Some e, canvas)
      | Inr r \<Rightarrow> erase_loop boxes (canvas @ [r]))"

text \<open>
  The check of the translated text: \<open>None\<close> where the loop body runs \<open>continue\<close>,
  otherwise the text that is laid out.
\<close>

definition validate :: "env \<Rightarrow> ustring \<Rightarrow> ustring option" where
  "validate env translated_text =
     (if list_ex (\<lambda>p. contains p (lower env translated_text)) invalid_phrases then None
      else (let translated_text' = strip (remove_latin translated_text)
            in if translated_text' = [] \<or> isspace translated_text' then None
               else Some translated_text'))"

record layout =
  chosen_font :: font
  wrapped_lines :: "ustring list"
  reshaped_lines :: "ustring list"
  line_height :: int
  total_height :: int

definition truetype :: "env \<Rightarrow> int \<Rightarrow> exn + font" where
  "truetype env font_size =
     (if font_file_loads env font_size then Inr (TrueType font_size) else Inl OSError)"

text \<open>The font of one pass of the sizing loop: \<open>try\<close> the file, \<open>except\<close> the default font.\<close>

definition load_font :: "env \<Rightarrow> int \<Rightarrow> font" where
  "load_font env font_size = (case truetype env font_size of Inr f \<Rightarrow> f | Inl e \<Rightarrow> DefaultFont)"

text \<open>Wrapping, reshaping and measuring with one font, as both the loop and the fallback do.\<close>

definition lay_out :: "env \<Rightarrow> font \<Rightarrow> ustring \<Rightarrow> int \<Rightarrow> layout" where
  "lay_out env fnt translated_text max_width =
     (let wrapped = wrap_text translated_text (textbbox env fnt) max_width;
          reshaped = map (reshape env) wrapped;
          lh = bottom (textbbox env fnt (ascii ''Test''));
          total = lh * int (length reshaped) + (int (length reshaped) - 1) * 4
      in \<lparr>chosen_font = fnt, wrapped_lines = wrapped, reshaped_lines = reshaped,
          line_height = lh, total_height = total\<rparr>)"

text \<open>The \<open>while\<close> loop: \<open>Some\<close> at \<open>break\<close>, \<open>None\<close> when the sizes are used up.\<close>

function shrink_loop :: "env \<Rightarrow> ustring \<Rightarrow> int \<Rightarrow> int \<Rightarrow> int \<Rightarrow> layout option" where
  "shrink_loop env translated_text max_width max_height font_size =
     (if font_size \<ge> min_font_size
      then (let l = lay_out env (load_font env font_size) translated_text max_width
            in if total_height l \<le> max_height then Some l
               else shrink_loop env translated_text max_width max_height (font_size - 2))
      else None)"
  by pat_completeness auto
termination
  by (relation "measure (\<lambda>(env, t, mw, mh, font_size). nat (font_size + 1 - min_font_size))") auto

declare shrink_loop.simps [simp del]

definition fit :: "env \<Rightarrow> ustring \<Rightarrow> int \<Rightarrow> int \<Rightarrow> exn + layout" where
  "fit env translated_text max_width max_height =
     (case shrink_loop env translated_text max_width max_height 23 of
        Some l \<Rightarrow> Inr l
      | None \<Rightarrow>
          (case truetype env min_font_size of
             Inl e \<Rightarrow> Inl e
           | Inr fnt \<Rightarrow> Inr (lay_out env fnt translated_text max_width)))"

fun draw_lines :: "env \<Rightarrow> font \<Rightarrow> int \<Rightarrow> int \<Rightarrow> int \<Rightarrow> int \<Rightarrow> ustring list \<Rightarrow> draw_op list" where
  "draw_lines env fnt x0 max_width lh current_y [] = []"
| "draw_lines env fnt x0 max_width lh current_y (line # rest) =
     (let line_width = right (textbbox env fnt line);
          center_x = x0 + (max_width - line_width) div 2
      in DrawText center_x current_y line Black fnt
         # draw_lines env fnt x0 max_width lh (current_y + lh + 4) rest)"

text \<open>The size guard of the second loop, on the padded box.\<close>

definition too_small :: "bbox4 \<Rightarrow> bool" where
  "too_small b = (case padded b of (x0, y0, x1, y1) \<Rightarrow> x1 - x0 < 10 \<or> y1 - y0 < 10)"

text \<open>
  The body of the second loop for the region at position \<open>i\<close>: the drawing calls it makes,
  or the exception that leaves the function.
\<close>

definition draw_region :: "env \<Rightarrow> nat \<Rightarrow> region \<Rightarrow> exn + draw_op list" where
  "draw_region env i box =
     (let text = strip (r_text box)
      in if text = [] \<or> isspace text then Inr []
         else if too_small (r_bbox box) then Inr []
         else (case padded (r_bbox box) of (x0, y0, x1, y1) \<Rightarrow>
           (let max_width = x1 - x0; max_height = y1 - y0
            in case validate env (translate_openl (chat env i) text) of
                 None \<Rightarrow> Inr []
               | Some translated_text \<Rightarrow>
                   (case fit env translated_text max_width max_height of
                      Inl e \<Rightarrow> Inl e
                    | Inr l \<Rightarrow>
                        Inr (draw_lines env (chosen_font l) x0 max_width (line_height l)
                              (y0 + (max_height - total_height l) div 2) (reshaped_lines l))))))"

text \<open>
  The second loop. The result is the exception, if one was raised, and the canvas as it
  is then; the image is saved only when there is none.
\<close>

fun draw_loop :: "env \<Rightarrow> nat \<Rightarrow> region list \<Rightarrow> draw_op list \<Rightarrow> exn option \<times> draw_op list" where
  "draw_loop env i [] canvas = (None, canvas)"
| "draw_loop env i (box # boxes) canvas =
     (case draw_region env i box of
        Inl e \<Rightarrow> (Some e, canvas)
      | Inr ops \<Rightarrow> draw_loop env (Suc i) boxes (canvas @ ops))"

text \<open>
  The two loops one after the other: an exception of the first loop leaves the function
  before the second starts.
\<close>

definition erase_sentences_from_image :: "env \<Rightarrow> region list \<Rightarrow> exn option \<times> draw_op list" where
  "erase_sentences_from_image env sentence_boxes =
     (case erase_loop sentence_boxes [] of
        (Some e, canvas) \<Rightarrow> (Some e, canvas)
      | (None, canvas) \<Rightarrow> draw_loop env 0 sentence_boxes canvas)"


section \<open>Notions used in the statements\<close>

text \<open>The last step of \<open>wrap_text\<close>, on the state the loop leaves.\<close>

definition finish :: "ustring list \<times> ustring \<Rightarrow> ustring list" where
  "finish st =
     (case st of (lines, current_line) \<Rightarrow>
        if current_line \<noteq> [] then lines @ [current_line] else lines)"

text \<open>
  What the loop of \<open>wrap_text\<close> keeps true of every line it closes, for the words \<open>S\<close>
  of the text: the line fits, or it is one word that does not fit, or it is the empty
  line closed when the very first word does not fit.
\<close>

definition line_ok :: "(ustring \<Rightarrow> bbox4) \<Rightarrow> int \<Rightarrow> ustring set \<Rightarrow> ustring \<Rightarrow> bool" where
  "line_ok tb mw S l \<longleftrightarrow>
     right (tb l) \<le> mw \<or> (l \<in> S \<and> mw < right (tb l)) \<or>
     (l = [] \<and> (\<exists>w\<in>S. mw < right (tb w)))"

text \<open>A width measure is monotone under appending a word, with its space, to a line.\<close>

definition monotone_width :: "(ustring \<Rightarrow> bbox4) \<Rightarrow> bool" where
  "monotone_width tb \<longleftrightarrow>
     (\<forall>line word. right (tb line) \<le> right (tb (line @ [32] @ word)) \<and>
                  right (tb word) \<le> right (tb (line @ [32] @ word)))"

subsection \<open>A concrete environment\<close>

text \<open>
  A fixed-pitch measure: at size \<open>sz\<close> every glyph is \<open>sz div 2\<close> wide and a line is
  \<open>sz\<close> high; the default font has glyphs 6 wide and lines 11 high.
\<close>

definition demo_textbbox :: "font \<Rightarrow> ustring \<Rightarrow> bbox4" where
  "demo_textbbox f s =
     (case f of
        TrueType sz \<Rightarrow> (0, 0, (sz div 2) * int (length s), sz)
      | DefaultFont \<Rightarrow> (0, 0, 6 * int (length s), 11))"

text \<open>The Arabic word of five letters that the demonstration translator answers.\<close>

definition marhaban :: ustring where
  "marhaban = [1605, 1585, 1581, 1576, 1575]"

definition demo_env :: env where
  "demo_env =
     \<lparr>ulower = (\<lambda>s i. [s ! i]), ualnum = (\<lambda>c. True), font_file_loads = (\<lambda>sz. True),
      textbbox = demo_textbbox, reshape = rev, chat = (\<lambda>i s. Inr [Some marhaban])\<rparr>"

subsection \<open>The extractor, in the words of the specification\<close>

text \<open>A word token is the concatenation of the word's symbols.\<close>

definition word_token :: "ocr_word \<Rightarrow> ustring" where
  "word_token w = concat (symbols w)"

text \<open>Tokens joined by single spaces.\<close>

fun join_spaces :: "ustring list \<Rightarrow> ustring" where
  "join_spaces [] = []"
| "join_spaces [w] = w"
| "join_spaces (w # ws) = w @ [32] @ join_spaces ws"

text \<open>All vertices of the bounding polygons of all words of a paragraph.\<close>

definition all_vertices :: "ocr_paragraph \<Rightarrow> (int \<times> int) list" where
  "all_vertices p = concat (map vertices p)"

text \<open>(min x, min y, max x, max y) over these vertices.\<close>

definition extent :: "ocr_paragraph \<Rightarrow> bbox4" where
  "extent p =
     (Min (fst ` set (all_vertices p)), Min (snd ` set (all_vertices p)),
      Max (fst ` set (all_vertices p)), Max (snd ` set (all_vertices p)))"

definition area :: "bbox4 \<Rightarrow> int" where
  "area b = (case b of (x0, y0, x1, y1) \<Rightarrow> (x1 - x0) * (y1 - y0))"

text \<open>
  The noise filter as the specification words it: not (short text over a large area), and
  at least one word character.
\<close>

definition kept :: "env \<Rightarrow> ocr_paragraph \<Rightarrow> bool" where
  "kept env p \<longleftrightarrow>
     \<not> (length (clean_text p) \<le> 6 \<and> area (extent p) > 40000) \<and>
     (\<exists>c\<in>set (clean_text p). word_char env c)"

definition region_of :: "ocr_paragraph \<Rightarrow> region" where
  "region_of p = \<lparr>r_text = clean_text p, r_bbox = extent p\<rparr>"

text \<open>The paragraphs of an answer, in traversal order.\<close>

definition all_paragraphs :: "response \<Rightarrow> ocr_paragraph list" where
  "all_paragraphs resp = concat (concat (pages resp))"

subsection \<open>A concrete OCR answer\<close>

text \<open>
  Three paragraphs: two words in a small box, a short text over a 300 by 300 box, and
  three dots.
\<close>

definition box_vertices :: "int \<Rightarrow> int \<Rightarrow> int \<Rightarrow> int \<Rightarrow> (int \<times> int) list" where
  "box_vertices x0 y0 x1 y1 = [(x0, y0), (x1, y0), (x1, y1), (x0, y1)]"

definition demo_hello :: ocr_paragraph where
  "demo_hello =
     [\<lparr>symbols = map ascii [''H'', ''e'', ''l'', ''l'', ''o''], vertices = box_vertices 10 10 60 40\<rparr>,
      \<lparr>symbols = map ascii [''w'', ''o'', ''r'', ''l'', ''d''], vertices = box_vertices 65 12 110 38\<rparr>]"

definition demo_logo :: ocr_paragraph where
  "demo_logo = [\<lparr>symbols = map ascii [''L'', ''O'', ''G'', ''O''], vertices = box_vertices 0 0 300 300\<rparr>]"

definition demo_dots :: ocr_paragraph where
  "demo_dots = [\<lparr>symbols = map ascii [''.'', ''.'', ''.''], vertices = box_vertices 5 200 30 210\<rparr>]"

definition demo_response :: response where
  "demo_response = \<lparr>error_message = [], pages = [[[demo_hello, demo_logo], [demo_dots]]]\<rparr>"

subsection \<open>The renderer\<close>

text \<open>
  The block laid out in the pass of the sizing loop at \<open>font_size\<close> is at most
  \<open>mh\<close> high, so that this pass ends the search.
\<close>

definition fits :: "env \<Rightarrow> ustring \<Rightarrow> int \<Rightarrow> int \<Rightarrow> int \<Rightarrow> bool" where
  "fits env t mw mh font_size \<longleftrightarrow> total_height (lay_out env (load_font env font_size) t mw) \<le> mh"

text \<open>The white rectangle over the padded box of a region.\<close>

definition white_rectangle :: "region \<Rightarrow> draw_op" where
  "white_rectangle box =
     (case padded (r_bbox box) of (x0, y0, x1, y1) \<Rightarrow> Rectangle x0 y0 x1 y1 White)"

text \<open>The padded box of a region has its second corner right of and below the first.\<close>

definition box_ordered :: "region \<Rightarrow> bool" where
  "box_ordered box = (case padded (r_bbox box) of (x0, y0, x1, y1) \<Rightarrow> x0 \<le> x1 \<and> y0 \<le> y1)"

definition is_text :: "draw_op \<Rightarrow> bool" where
  "is_text d = (case d of DrawText x y s c f \<Rightarrow> True | Rectangle x0 y0 x1 y1 c \<Rightarrow> False)"

definition is_rectangle :: "draw_op \<Rightarrow> bool" where
  "is_rectangle d = (case d of DrawText x y s c f \<Rightarrow> False | Rectangle x0 y0 x1 y1 c \<Rightarrow> True)"

text \<open>ASCII lower-casing of one code point.\<close>

definition ascii_lower :: "nat \<Rightarrow> nat" where
  "ascii_lower c = (if 65 \<le> c \<and> c \<le> 90 then c + 32 else c)"

text \<open>The last of the \<open>invalid_phrases\<close>, as the service sends it.\<close>

definition refusal :: ustring where
  "refusal = ascii ''I'' @ [39] @ ascii ''m sorry, but I can'' @ [39] @ ascii ''t assist with that.''"

subsection \<open>Concrete runs\<close>

definition three_words :: ustring where
  "three_words = marhaban @ [32] @ marhaban @ [32] @ marhaban"

text \<open>The font file cannot be opened, and the translator answers three words.\<close>

definition no_font_env :: env where
  "no_font_env = demo_env \<lparr>font_file_loads := (\<lambda>sz. False), chat := (\<lambda>i s. Inr [Some three_words])\<rparr>"

text \<open>The translator answers with the refusal.\<close>

definition refusing_env :: env where
  "refusing_env = demo_env \<lparr>chat := (\<lambda>i s. Inr [Some refusal])\<rparr>"

definition hello_box :: region where
  "hello_box = \<lparr>r_text = ascii ''Hello world'', r_bbox = (10, 10, 110, 40)\<rparr>"

definition low_box :: region where
  "low_box = \<lparr>r_text = ascii ''Hello world'', r_bbox = (0, 0, 50, 5)\<rparr>"

text \<open>A region left of and above the image: its padded box is (0, 0, -38, -40).\<close>

definition far_box :: region where
  "far_box = \<lparr>r_text = ascii ''Hello world'', r_bbox = (- 100, - 100, - 50, - 50)\<rparr>"

text \<open>What is left of the refusal once its Latin letters are removed.\<close>

definition leftover :: ustring where
  "leftover = [39, 32, 44, 32, 32, 32, 39, 32, 32, 32, 46]"

section \<open>Properties of wrap_text\<close>

lemma split_from_nonempty: "w \<in> set (split_from cur s) \<Longrightarrow> w \<noteq> []"
  by (induction cur s rule: split_from.induct) (auto split: if_splits)

lemma split_nonempty: "w \<in> set (split s) \<Longrightarrow> w \<noteq> []"
  unfolding split_def by (rule split_from_nonempty)

lemma wrap_text_finish: "wrap_text text tb mw = finish (wrap_loop tb mw (split text) [] [])"
  by (simp add: wrap_text_def finish_def)

lemma wrap_loop_ok:
  assumes "set ws \<subseteq> S" "\<forall>l\<in>set lines. line_ok tb mw S l" "cur = [] \<or> line_ok tb mw S cur"
  shows "\<forall>l\<in>set (finish (wrap_loop tb mw ws lines cur)). line_ok tb mw S l"
  using assms
proof (induction ws arbitrary: lines cur)
  case Nil
  then show ?case by (auto simp: finish_def)
next
  case (Cons word words)
  let ?t = "if cur = [] then word else cur @ [32] @ word"
  show ?case
  proof (cases "right (tb ?t) \<le> mw")
    case True
    have "\<forall>l\<in>set (finish (wrap_loop tb mw words lines ?t)). line_ok tb mw S l"
      using Cons.prems True by (intro Cons.IH) (auto simp: line_ok_def)
    with True show ?thesis by (simp add: Let_def)
  next
    case False
    have w: "word \<in> S" using Cons.prems by simp
    have c: "line_ok tb mw S cur"
    proof (cases "cur = []")
      case True
      with False have "mw < right (tb word)" by simp
      with w True show ?thesis unfolding line_ok_def by blast
    next
      case False
      with Cons.prems show ?thesis by simp
    qed
    have "\<forall>l\<in>set (finish (wrap_loop tb mw words (lines @ [cur]) word)). line_ok tb mw S l"
      using Cons.prems c w by (intro Cons.IH) (auto simp: line_ok_def)
    with False show ?thesis by (simp add: Let_def)
  qed
qed

lemma wrap_loop_keeps: "set lines \<subseteq> set (finish (wrap_loop tb mw ws lines cur))"
proof (induction ws arbitrary: lines cur)
  case Nil
  then show ?case by (auto simp: finish_def)
next
  case (Cons word words)
  show ?case using Cons.IH [of lines] Cons.IH [of "lines @ [cur]"]
    by (auto simp: Let_def)
qed

lemma wrap_loop_wide_current:
  assumes "monotone_width tb" "cur \<noteq> []" "mw < right (tb cur)"
  shows "cur \<in> set (finish (wrap_loop tb mw ws lines cur))"
proof (cases ws)
  case Nil
  with assms show ?thesis by (simp add: finish_def)
next
  case (Cons word words)
  have "right (tb cur) \<le> right (tb (cur @ [32] @ word))"
    using assms(1) unfolding monotone_width_def by blast
  then have "\<not> right (tb (cur @ [32] @ word)) \<le> mw" using assms(3) by simp
  then have "wrap_loop tb mw ws lines cur = wrap_loop tb mw words (lines @ [cur]) word"
    using Cons assms(2) by (simp add: Let_def)
  then show ?thesis using wrap_loop_keeps [of "lines @ [cur]" tb mw words word] by auto
qed

lemma wrap_loop_wide_word:
  assumes "monotone_width tb" "w \<in> set ws" "w \<noteq> []" "mw < right (tb w)"
  shows "w \<in> set (finish (wrap_loop tb mw ws lines cur))"
  using assms(2)
proof (induction ws arbitrary: lines cur)
  case Nil
  then show ?case by simp
next
  case (Cons word words)
  let ?t = "if cur = [] then word else cur @ [32] @ word"
  show ?case
  proof (cases "word = w")
    case True
    have "right (tb w) \<le> right (tb (cur @ [32] @ w))"
      using assms(1) unfolding monotone_width_def by blast
    then have "\<not> right (tb ?t) \<le> mw" using assms(4) True by auto
    then have "wrap_loop tb mw (word # words) lines cur = wrap_loop tb mw words (lines @ [cur]) w"
      using True by (cases "cur = []") (simp_all add: Let_def)
    then show ?thesis using wrap_loop_wide_current [OF assms(1,3,4)] by simp
  next
    case False
    then have "w \<in> set words" using Cons.prems by simp
    then show ?thesis using Cons.IH by (simp add: Let_def)
  qed
qed

lemma demo_monotone: "monotone_width (demo_textbbox (TrueType 20))"
  by (simp add: monotone_width_def demo_textbbox_def right_def)

lemma demo_wrap:
  "wrap_text (ascii ''ab cdefgh i'') (demo_textbbox (TrueType 20)) 30
     = [ascii ''ab'', ascii ''cdefgh'', ascii ''i'']"
  by (simp add: wrap_text_def split_def ascii_def is_space_def demo_textbbox_def right_def Let_def)

lemma demo_wrap_wide_first:
  "wrap_text (ascii ''abcdef g'') (demo_textbbox (TrueType 20)) 30
     = [[], ascii ''abcdef'', ascii ''g'']"
  by (simp add: wrap_text_def split_def ascii_def is_space_def demo_textbbox_def right_def Let_def)

text \<open>
  C3. Whatever the text, the measure and \<open>max_width\<close>:
  when no word of the text alone measures more than \<open>max_width\<close>, no emitted line does;
  every non-empty line that \<open>wrap_text\<close> emits either measures at most \<open>max_width\<close> or is
  a single word of the text that alone measures more, and so does every line when the
  empty string measures at most \<open>max_width\<close>;
  and, for a measure that is monotone under appending words, every word that alone
  measures more than \<open>max_width\<close> is emitted, unmodified, as a line of its own.
  (The empty line is set apart because the loop closes the still empty current line when
  the first word of the text does not fit, as \<open>demo_wrap_wide_first\<close> shows; that
  happens only when a word is too wide.)
\<close>

theorem wrap_text_width:
  "((\<forall>w\<in>set (split text). right (tb w) \<le> max_width) \<longrightarrow>
       (\<forall>l\<in>set (wrap_text text tb max_width). right (tb l) \<le> max_width))
   \<and> (\<forall>l\<in>set (wrap_text text tb max_width). l \<noteq> [] \<longrightarrow>
       right (tb l) \<le> max_width \<or> (l \<in> set (split text) \<and> max_width < right (tb l)))
   \<and> (right (tb []) \<le> max_width \<longrightarrow>
       (\<forall>l\<in>set (wrap_text text tb max_width).
          right (tb l) \<le> max_width \<or> (l \<in> set (split text) \<and> max_width < right (tb l))))
   \<and> (monotone_width tb \<longrightarrow>
       (\<forall>w\<in>set (split text). max_width < right (tb w) \<longrightarrow>
          w \<in> set (wrap_text text tb max_width)))"
proof -
  have ok: "\<forall>l\<in>set (wrap_text text tb max_width). line_ok tb max_width (set (split text)) l"
    unfolding wrap_text_finish by (rule wrap_loop_ok) simp_all
  have a: "\<forall>l\<in>set (wrap_text text tb max_width). l \<noteq> [] \<longrightarrow>
       right (tb l) \<le> max_width \<or> (l \<in> set (split text) \<and> max_width < right (tb l))"
    using ok unfolding line_ok_def by blast
  have b: "(\<forall>w\<in>set (split text). right (tb w) \<le> max_width) \<longrightarrow>
       (\<forall>l\<in>set (wrap_text text tb max_width). right (tb l) \<le> max_width)"
    using ok unfolding line_ok_def by fastforce
  have c: "monotone_width tb \<longrightarrow>
       (\<forall>w\<in>set (split text). max_width < right (tb w) \<longrightarrow>
          w \<in> set (wrap_text text tb max_width))"
    unfolding wrap_text_finish
    using wrap_loop_wide_word split_nonempty by blast
  have d: "right (tb []) \<le> max_width \<longrightarrow>
       (\<forall>l\<in>set (wrap_text text tb max_width).
          right (tb l) \<le> max_width \<or> (l \<in> set (split text) \<and> max_width < right (tb l)))"
  proof (intro impI ballI)
    fix l
    assume e: "right (tb []) \<le> max_width" and l: "l \<in> set (wrap_text text tb max_width)"
    show "right (tb l) \<le> max_width \<or> (l \<in> set (split text) \<and> max_width < right (tb l))"
    proof (cases "l = []")
      case True
      with e show ?thesis by simp
    next
      case False
      with a l show ?thesis by blast
    qed
  qed
  from conjI [OF b conjI [OF a conjI [OF d c]]] show ?thesis .
qed

theorem wrap_text_width_witness:
  "monotone_width (demo_textbbox (TrueType 20))
   \<and> ascii ''cdefgh'' \<in> set (split (ascii ''ab cdefgh i''))
   \<and> 30 < right (demo_textbbox (TrueType 20) (ascii ''cdefgh''))
   \<and> ascii ''cdefgh'' \<in> set (wrap_text (ascii ''ab cdefgh i'') (demo_textbbox (TrueType 20)) 30)
   \<and> ascii ''ab'' \<in> set (wrap_text (ascii ''ab cdefgh i'') (demo_textbbox (TrueType 20)) 30)
   \<and> right (demo_textbbox (TrueType 20) (ascii ''ab'')) \<le> 30
   \<and> right (demo_textbbox (TrueType 20) []) \<le> 30"
  using wrap_text_width [of "ascii ''ab cdefgh i''" "demo_textbbox (TrueType 20)" 30] demo_monotone
  by (simp add: demo_wrap) (simp add: ascii_def demo_textbbox_def right_def split_def is_space_def)

section \<open>Properties of google_ocr\<close>

lemma x_coords_vertices: "x_coords p = map fst (all_vertices p)"
  by (simp add: x_coords_def all_vertices_def map_concat comp_def)

lemma y_coords_vertices: "y_coords p = map snd (all_vertices p)"
  by (simp add: y_coords_def all_vertices_def map_concat comp_def)

lemma py_max_Max: "xs \<noteq> [] \<Longrightarrow> py_max xs = Inr (Max (set xs))"
  by (cases xs) (simp_all add: Max.set_eq_fold [symmetric])

lemma py_min_Min: "xs \<noteq> [] \<Longrightarrow> py_min xs = Inr (Min (set xs))"
  by (cases xs) (simp_all add: Min.set_eq_fold [symmetric])

lemma paragraph_region_raises:
  "all_vertices p = [] \<Longrightarrow> paragraph_region env p = Inl ValueError"
  by (simp add: paragraph_region_def x_coords_vertices)

lemma paragraph_region_returns:
  assumes "all_vertices p \<noteq> []"
  shows "paragraph_region env p = Inr (if kept env p then Some (region_of p) else None)"
proof -
  have x: "py_max (x_coords p) = Inr (Max (fst ` set (all_vertices p)))"
          "py_min (x_coords p) = Inr (Min (fst ` set (all_vertices p)))"
    using assms by (simp_all add: x_coords_vertices py_max_Max py_min_Min)
  have y: "py_max (y_coords p) = Inr (Max (snd ` set (all_vertices p)))"
          "py_min (y_coords p) = Inr (Min (snd ` set (all_vertices p)))"
    using assms by (simp_all add: y_coords_vertices py_max_Max py_min_Min)
  show ?thesis
    unfolding paragraph_region_def x y
    by (auto simp: kept_def region_of_def extent_def area_def has_word_char_def list_ex_iff Let_def)
qed

lemma paragraph_region_Some:
  assumes "paragraph_region env p = Inr (Some r)"
  shows "all_vertices p \<noteq> [] \<and> kept env p \<and> r = region_of p"
proof (cases "all_vertices p = []")
  case True
  with assms show ?thesis by (simp add: paragraph_region_raises)
next
  case False
  with assms show ?thesis by (simp add: paragraph_region_returns split: if_splits)
qed

text \<open>
  The three loops together: the answer of \<open>google_ocr\<close> on every input. A paragraph
  without any vertex makes \<open>max\<close> raise, and then there is no output at all.
\<close>

lemma paragraphs_loop_result:
  "paragraphs_loop env ps acc =
     (if \<forall>p\<in>set ps. all_vertices p \<noteq> []
      then Inr (acc @ map region_of (filter (kept env) ps)) else Inl ValueError)"
proof (induction ps arbitrary: acc)
  case Nil
  then show ?case by simp
next
  case (Cons p ps)
  show ?case
  proof (cases "all_vertices p = []")
    case True
    then show ?thesis by (simp add: paragraph_region_raises)
  next
    case False
    then show ?thesis by (simp add: paragraph_region_returns Cons.IH)
  qed
qed

lemma blocks_loop_result:
  "blocks_loop env bs acc =
     (if \<forall>p\<in>set (concat bs). all_vertices p \<noteq> []
      then Inr (acc @ map region_of (filter (kept env) (concat bs))) else Inl ValueError)"
proof (induction bs arbitrary: acc)
  case Nil
  then show ?case by simp
next
  case (Cons b bs)
  show ?case by (auto simp: paragraphs_loop_result Cons.IH)
qed

lemma pages_loop_result:
  "pages_loop env pgs acc =
     (if \<forall>p\<in>set (concat (concat pgs)). all_vertices p \<noteq> []
      then Inr (acc @ map region_of (filter (kept env) (concat (concat pgs)))) else Inl ValueError)"
proof (induction pgs arbitrary: acc)
  case Nil
  then show ?case by simp
next
  case (Cons pg pgs)
  show ?case by (auto simp: blocks_loop_result Cons.IH)
qed

lemma google_ocr_result:
  "google_ocr env resp =
     (if error_message resp \<noteq> [] then Inl OcrError
      else if \<forall>p\<in>set (all_paragraphs resp). all_vertices p \<noteq> []
      then Inr (map region_of (filter (kept env) (all_paragraphs resp))) else Inl ValueError)"
  by (simp add: google_ocr_def pages_loop_result all_paragraphs_def)

lemma is_space_32: "is_space 32"
  by (simp add: is_space_def)

lemma rstrip_space: "rstrip (s @ [32]) = rstrip s"
  by (simp add: rstrip_def is_space_32)

lemma strip_space: "strip (s @ [32]) = strip s"
proof (cases "\<forall>c\<in>set s. is_space c")
  case True
  then have "lstrip (s @ [32]) = []" "lstrip s = []"
    by (simp_all add: lstrip_def is_space_32)
  then show ?thesis by (simp add: strip_def)
next
  case False
  then have "lstrip (s @ [32]) = lstrip s @ [32]"
    by (auto simp: lstrip_def dropWhile_append1)
  then show ?thesis by (simp add: strip_def rstrip_space)
qed

lemma sentence_text_join:
  "sentence_text p = (if p = [] then [] else join_spaces (map word_token p) @ [32])"
proof (induction p)
  case Nil
  then show ?case by (simp add: sentence_text_def)
next
  case (Cons w ws)
  then show ?case by (cases ws) (simp_all add: sentence_text_def word_token_def)
qed

lemma clean_text_join: "clean_text p = strip (join_spaces (map word_token p))"
  by (cases "p = []") (simp_all add: clean_text_def sentence_text_join strip_space)

lemma demo_hello_region:
  "paragraph_region demo_env demo_hello
     = Inr (Some \<lparr>r_text = ascii ''Hello world'', r_bbox = (10, 10, 110, 40)\<rparr>)"
  by (simp add: paragraph_region_def demo_hello_def box_vertices_def x_coords_def y_coords_def
      clean_text_def sentence_text_def strip_def lstrip_def rstrip_def is_space_def ascii_def
      has_word_char_def word_char_def demo_env_def)

lemma demo_logo_region: "paragraph_region demo_env demo_logo = Inr None"
  by (simp add: paragraph_region_def demo_logo_def box_vertices_def x_coords_def y_coords_def
      clean_text_def sentence_text_def strip_def lstrip_def rstrip_def is_space_def ascii_def
      has_word_char_def word_char_def demo_env_def)

lemma demo_dots_region: "paragraph_region demo_env demo_dots = Inr None"
  by (simp add: paragraph_region_def demo_dots_def box_vertices_def x_coords_def y_coords_def
      clean_text_def sentence_text_def strip_def lstrip_def rstrip_def is_space_def ascii_def
      has_word_char_def word_char_def demo_env_def)

lemma demo_google_ocr:
  "google_ocr demo_env demo_response
     = Inr [\<lparr>r_text = ascii ''Hello world'', r_bbox = (10, 10, 110, 40)\<rparr>]"
  by (simp add: google_ocr_def demo_response_def demo_hello_region demo_logo_region
      demo_dots_region)

text \<open>
  C2. A paragraph (with at least one vertex, so that its box exists) yields a region iff
  it is not the case that its trimmed text has at most 6 characters and its box area is
  above 40000, and its text has a word character; otherwise it yields nothing. The output
  of the extractor is exactly the regions of the paragraphs that pass, in traversal
  order, so a dropped paragraph leaves no entry.
\<close>

theorem noise_filter:
  "(all_vertices p \<noteq> [] \<longrightarrow>
      ((\<exists>r. paragraph_region env p = Inr (Some r)) \<longleftrightarrow>
          \<not> (length (clean_text p) \<le> 6 \<and> area (extent p) > 40000) \<and>
          (\<exists>c\<in>set (clean_text p). word_char env c)) \<and>
      (paragraph_region env p = Inr None \<longleftrightarrow> \<not> kept env p))
   \<and> (google_ocr env resp = Inr out \<longrightarrow>
        out = map region_of (filter (kept env) (all_paragraphs resp)))"
proof -
  have a: "all_vertices p \<noteq> [] \<longrightarrow>
      ((\<exists>r. paragraph_region env p = Inr (Some r)) \<longleftrightarrow>
          \<not> (length (clean_text p) \<le> 6 \<and> area (extent p) > 40000) \<and>
          (\<exists>c\<in>set (clean_text p). word_char env c)) \<and>
      (paragraph_region env p = Inr None \<longleftrightarrow> \<not> kept env p)"
    by (simp add: paragraph_region_returns) (simp add: kept_def)
  have b: "google_ocr env resp = Inr out \<longrightarrow>
        out = map region_of (filter (kept env) (all_paragraphs resp))"
    by (auto simp: google_ocr_result split: if_splits)
  from a b show ?thesis by blast
qed

theorem noise_filter_witness:
  "all_vertices demo_hello \<noteq> [] \<and> kept demo_env demo_hello
   \<and> all_vertices demo_logo \<noteq> [] \<and> \<not> kept demo_env demo_logo
   \<and> google_ocr demo_env demo_response
       = Inr [\<lparr>r_text = ascii ''Hello world'', r_bbox = (10, 10, 110, 40)\<rparr>]
   \<and> [\<lparr>r_text = ascii ''Hello world'', r_bbox = (10, 10, 110, 40)\<rparr>]
       = map region_of (filter (kept demo_env) (all_paragraphs demo_response))"
proof -
  have v: "all_vertices demo_hello \<noteq> []" "all_vertices demo_logo \<noteq> []"
    by (simp_all add: all_vertices_def demo_hello_def demo_logo_def box_vertices_def)
  from v(1) have h: "kept demo_env demo_hello"
    using noise_filter [of demo_hello demo_env demo_response
        "[\<lparr>r_text = ascii ''Hello world'', r_bbox = (10, 10, 110, 40)\<rparr>]"]
    by (simp add: demo_hello_region kept_def)
  from v(2) have l: "\<not> kept demo_env demo_logo"
    using noise_filter [of demo_logo demo_env demo_response
        "[\<lparr>r_text = ascii ''Hello world'', r_bbox = (10, 10, 110, 40)\<rparr>]"]
    by (simp add: demo_logo_region)
  show ?thesis
    using v h l demo_google_ocr
      noise_filter [of demo_hello demo_env demo_response
        "[\<lparr>r_text = ascii ''Hello world'', r_bbox = (10, 10, 110, 40)\<rparr>]"]
    by simp
qed

text \<open>
  C9. The box of an emitted region is (min x, min y, max x, max y) over all vertices of
  all words of its paragraph, and its text is the word tokens joined by single spaces,
  trimmed.
\<close>

theorem region_bbox_text:
  "paragraph_region env p = Inr (Some r) \<Longrightarrow>
     r_bbox r = (Min (fst ` set (all_vertices p)), Min (snd ` set (all_vertices p)),
                 Max (fst ` set (all_vertices p)), Max (snd ` set (all_vertices p)))
     \<and> r_text r = strip (join_spaces (map word_token p))"
  using paragraph_region_Some [of env p r]
  by (simp add: region_of_def extent_def clean_text_join)

theorem region_bbox_text_witness:
  "paragraph_region demo_env demo_hello
      = Inr (Some \<lparr>r_text = ascii ''Hello world'', r_bbox = (10, 10, 110, 40)\<rparr>)
   \<and> (Min (fst ` set (all_vertices demo_hello)), Min (snd ` set (all_vertices demo_hello)),
       Max (fst ` set (all_vertices demo_hello)), Max (snd ` set (all_vertices demo_hello)))
      = (10, 10, 110, 40)
   \<and> strip (join_spaces (map word_token demo_hello)) = ascii ''Hello world''"
  using region_bbox_text [OF demo_hello_region] demo_hello_region by simp

section \<open>The size guard\<close>

lemma padded_dims:
  assumes "0 \<le> x0" "x0 \<le> x1" "0 \<le> y0" "y0 \<le> y1"
  shows "(case padded (x0, y0, x1, y1) of (a, b, c, d) \<Rightarrow> 12 \<le> c - a \<and> 10 \<le> d - b)
         \<and> \<not> too_small (x0, y0, x1, y1)"
  using assms by (simp add: padded_def too_small_def padding_x_def padding_y_def max_def)

lemma extent_ordered:
  assumes "all_vertices p \<noteq> []" "\<forall>v\<in>set (all_vertices p). 0 \<le> fst v \<and> 0 \<le> snd v"
  shows "0 \<le> Min (fst ` set (all_vertices p))"
    and "Min (fst ` set (all_vertices p)) \<le> Max (fst ` set (all_vertices p))"
    and "0 \<le> Min (snd ` set (all_vertices p))"
    and "Min (snd ` set (all_vertices p)) \<le> Max (snd ` set (all_vertices p))"
proof -
  have ne: "fst ` set (all_vertices p) \<noteq> {}" "snd ` set (all_vertices p) \<noteq> {}"
    using assms(1) by simp_all
  show "0 \<le> Min (fst ` set (all_vertices p))" using ne assms(2) by simp
  show "0 \<le> Min (snd ` set (all_vertices p))" using ne assms(2) by simp
  show "Min (fst ` set (all_vertices p)) \<le> Max (fst ` set (all_vertices p))"
    using ne by (simp add: Min.bounded_iff)
  show "Min (snd ` set (all_vertices p)) \<le> Max (snd ` set (all_vertices p))"
    using ne by (simp add: Min.bounded_iff)
qed

text \<open>
  C10. A region that the extractor emits for a paragraph whose vertex coordinates are
  all non-negative has \<open>0 \<le> x0 \<le> x1\<close> and \<open>0 \<le> y0 \<le> y1\<close>; its padded box is at least
  12 wide and 10 high, so the size guard of the drawing loop does not fire for it.
\<close>

theorem size_guard_unreachable:
  assumes "paragraph_region env p = Inr (Some r)"
    and "\<forall>v\<in>set (all_vertices p). 0 \<le> fst v \<and> 0 \<le> snd v"
  shows "(case r_bbox r of (x0, y0, x1, y1) \<Rightarrow> 0 \<le> x0 \<and> x0 \<le> x1 \<and> 0 \<le> y0 \<and> y0 \<le> y1)
     \<and> (case padded (r_bbox r) of (x0, y0, x1, y1) \<Rightarrow> 12 \<le> x1 - x0 \<and> 10 \<le> y1 - y0)
     \<and> \<not> too_small (r_bbox r)"
proof -
  from assms(1) have ne: "all_vertices p \<noteq> []" and r: "r_bbox r = extent p"
    using paragraph_region_Some [of env p r] by (simp_all add: region_of_def)
  note o = extent_ordered [OF ne assms(2)]
  show ?thesis
    unfolding r extent_def using o padded_dims [OF o] by simp
qed

theorem size_guard_unreachable_witness:
  "paragraph_region demo_env demo_hello
      = Inr (Some \<lparr>r_text = ascii ''Hello world'', r_bbox = (10, 10, 110, 40)\<rparr>)
   \<and> list_all (\<lambda>v. 0 \<le> fst v \<and> 0 \<le> snd v) (all_vertices demo_hello)
   \<and> padded (10, 10, 110, 40) = (0, 0, 122, 50)
   \<and> \<not> too_small (10, 10, 110, 40)"
proof -
  have v: "\<forall>v\<in>set (all_vertices demo_hello). 0 \<le> fst v \<and> 0 \<le> snd v"
    by (simp add: all_vertices_def demo_hello_def box_vertices_def)
  show ?thesis
    using size_guard_unreachable [OF demo_hello_region v] v demo_hello_region
    by (simp add: padded_def padding_x_def padding_y_def list_all_iff)
qed

section \<open>Properties of translate_openl\<close>

text \<open>
  C8. When the chat-completion call raises, \<open>translate_openl\<close> returns its argument
  unchanged; so it does when the answer has no choice or the first choice has no content,
  which raise inside the same \<open>try\<close>. The function returns a string in every case.
\<close>

theorem translate_failure_returns_text:
  "(request text = Inl e \<longrightarrow> translate_openl request text = text)
   \<and> (request text = Inr [] \<longrightarrow> translate_openl request text = text)
   \<and> (request text = Inr (None # rest) \<longrightarrow> translate_openl request text = text)"
  by (simp add: translate_openl_def)

theorem translate_failure_returns_text_witness:
  "(\<lambda>s. Inl ServiceError :: exn + ustring option list) (ascii ''Hello world'') = Inl ServiceError
   \<and> translate_openl (\<lambda>s. Inl ServiceError) (ascii ''Hello world'') = ascii ''Hello world''"
  using translate_failure_returns_text [of "\<lambda>s. Inl ServiceError" "ascii ''Hello world''" ServiceError]
  by simp

section \<open>Properties of the sizing search\<close>

lemma shrink_loop_unrolled:
  "shrink_loop env t mw mh 23 =
     (if fits env t mw mh 23 then Some (lay_out env (load_font env 23) t mw)
      else if fits env t mw mh 21 then Some (lay_out env (load_font env 21) t mw)
      else if fits env t mw mh 19 then Some (lay_out env (load_font env 19) t mw)
      else None)"
  by (simp add: shrink_loop.simps [of _ _ _ _ 23] shrink_loop.simps [of _ _ _ _ 21]
      shrink_loop.simps [of _ _ _ _ 19] shrink_loop.simps [of _ _ _ _ 17]
      min_font_size_def fits_def Let_def)

lemma fit_unrolled:
  "fit env t mw mh =
     (if fits env t mw mh 23 then Inr (lay_out env (load_font env 23) t mw)
      else if fits env t mw mh 21 then Inr (lay_out env (load_font env 21) t mw)
      else if fits env t mw mh 19 then Inr (lay_out env (load_font env 19) t mw)
      else if font_file_loads env 18 then Inr (lay_out env (TrueType 18) t mw)
      else Inl OSError)"
  by (simp add: fit_def shrink_loop_unrolled truetype_def min_font_size_def)

lemma demo_wrap_marhaban:
  "wrap_text marhaban (demo_textbbox (TrueType sz)) 100 =
     (if (sz div 2) * 5 \<le> 100 then [marhaban] else [[], marhaban])"
  by (simp add: wrap_text_def split_def marhaban_def is_space_def demo_textbbox_def right_def Let_def)

lemma demo_total_height:
  assumes "sz \<le> 40"
  shows "total_height (lay_out demo_env (TrueType sz) marhaban 100) = sz"
proof -
  from assms have "sz div 2 * 5 \<le> 100" by arith
  then have "wrap_text marhaban (demo_textbbox (TrueType sz)) 100 = [marhaban]"
    by (simp add: demo_wrap_marhaban)
  then show ?thesis
    by (simp add: lay_out_def demo_env_def Let_def demo_textbbox_def bottom_def)
qed

lemma demo_fits: "sz \<le> 40 \<Longrightarrow> fits demo_env marhaban 100 mh sz \<longleftrightarrow> sz \<le> mh"
  by (simp add: fits_def load_font_def truetype_def demo_total_height) (simp add: demo_env_def demo_total_height)

text \<open>
  C1, as the code has it. The passes of the loop are at the sizes 23, 21 and 19, each
  with the font file opened at that size or, when it cannot be opened, the default font.
  The search returns the layout of the largest of these sizes whose block height is at
  most the box height; when none of the three fits and the font file opens at size 18,
  it returns the layout at size 18, whatever its height. A font that was opened at size
  \<open>s\<close> is the chosen font \<open>TrueType s\<close>, and the block height of a layout is
  \<open>line_height * n_lines + 4 * (n_lines - 1)\<close>.
\<close>

theorem shrink_to_fit_sizes:
  "(s \<in> {23, 21, 19} \<and> fits env t mw mh s \<and> (\<forall>s'\<in>{23, 21, 19}. s < s' \<longrightarrow> \<not> fits env t mw mh s')
      \<longrightarrow> fit env t mw mh = Inr (lay_out env (load_font env s) t mw))
   \<and> ((\<forall>s'\<in>{23, 21, 19}. \<not> fits env t mw mh s') \<and> font_file_loads env 18
      \<longrightarrow> fit env t mw mh = Inr (lay_out env (TrueType 18) t mw))
   \<and> (font_file_loads env s \<longrightarrow> chosen_font (lay_out env (load_font env s) t mw) = TrueType s)
   \<and> total_height (lay_out env f t mw)
       = bottom (textbbox env f (ascii ''Test'')) * int (length (wrap_text t (textbbox env f) mw))
         + 4 * (int (length (wrap_text t (textbbox env f) mw)) - 1)"
proof -
  have a: "s \<in> {23, 21, 19} \<and> fits env t mw mh s \<and> (\<forall>s'\<in>{23, 21, 19}. s < s' \<longrightarrow> \<not> fits env t mw mh s')
      \<longrightarrow> fit env t mw mh = Inr (lay_out env (load_font env s) t mw)"
    by (auto simp: fit_unrolled)
  have b: "(\<forall>s'\<in>{23, 21, 19}. \<not> fits env t mw mh s') \<and> font_file_loads env 18
      \<longrightarrow> fit env t mw mh = Inr (lay_out env (TrueType 18) t mw)"
    by (simp add: fit_unrolled)
  have c: "font_file_loads env s \<longrightarrow> chosen_font (lay_out env (load_font env s) t mw) = TrueType s"
    by (simp add: lay_out_def load_font_def truetype_def Let_def)
  have d: "total_height (lay_out env f t mw)
       = bottom (textbbox env f (ascii ''Test'')) * int (length (wrap_text t (textbbox env f) mw))
         + 4 * (int (length (wrap_text t (textbbox env f) mw)) - 1)"
    by (simp add: lay_out_def Let_def)
  from a b c d show ?thesis by blast
qed

theorem shrink_to_fit_sizes_witness:
  "fits demo_env marhaban 100 22 21 \<and> \<not> fits demo_env marhaban 100 22 23
   \<and> fit demo_env marhaban 100 22 = Inr (lay_out demo_env (TrueType 21) marhaban 100)
   \<and> font_file_loads demo_env 18
   \<and> \<not> fits demo_env marhaban 100 17 23 \<and> \<not> fits demo_env marhaban 100 17 21
   \<and> \<not> fits demo_env marhaban 100 17 19
   \<and> fit demo_env marhaban 100 17 = Inr (lay_out demo_env (TrueType 18) marhaban 100)
   \<and> total_height (lay_out demo_env (TrueType 18) marhaban 100) = 18"
  using shrink_to_fit_sizes [of 21 demo_env marhaban 100 22 "TrueType 18"]
    shrink_to_fit_sizes [of 21 demo_env marhaban 100 17 "TrueType 18"]
  by (simp add: demo_fits demo_total_height) (simp add: demo_env_def load_font_def truetype_def)

text \<open>
  C1 as stated fails: with a box 22 high and lines as high as the font size, size 22
  would fit and 23 does not, and the search returns size 21, which is not among
  18, 20, 22, 23.
\<close>

theorem shrink_to_fit_counterexample:
  "fit demo_env marhaban 100 22 = Inr (lay_out demo_env (TrueType 21) marhaban 100)
   \<and> chosen_font (lay_out demo_env (TrueType 21) marhaban 100) = TrueType 21
   \<and> total_height (lay_out demo_env (TrueType 22) marhaban 100) \<le> 22
   \<and> (21::int) \<notin> {18, 20, 22, 23}"
  by (simp add: fit_unrolled demo_fits demo_total_height)
     (simp add: demo_env_def load_font_def truetype_def lay_out_def Let_def)

section \<open>Properties of the two loops\<close>

lemma draw_rectangle_padded:
  "draw_rectangle (padded (r_bbox box)) White
     = (if box_ordered box then Inr (white_rectangle box) else Inl ValueError)"
  by (auto simp: draw_rectangle_def box_ordered_def white_rectangle_def split: prod.splits)

lemma erase_loop_result:
  "erase_loop boxes canvas =
     (if list_all box_ordered boxes then (None, canvas @ map white_rectangle boxes)
      else (Some ValueError, canvas @ map white_rectangle (takeWhile box_ordered boxes)))"
  by (induction boxes arbitrary: canvas) (simp_all add: draw_rectangle_padded)

lemma white_rectangle_corners:
  "white_rectangle box =
     (case r_bbox box of (x0, y0, x1, y1) \<Rightarrow>
        Rectangle (max 0 (x0 - 12)) (max 0 (y0 - 10)) (x1 + 12) (y1 + 10) White)"
  by (simp add: white_rectangle_def padded_def padding_x_def padding_y_def split: prod.splits)

lemma box_ordered_corners:
  "box_ordered box =
     (case r_bbox box of (x0, y0, x1, y1) \<Rightarrow>
        max 0 (x0 - 12) \<le> x1 + 12 \<and> max 0 (y0 - 10) \<le> y1 + 10)"
  by (simp add: box_ordered_def padded_def padding_x_def padding_y_def split: prod.splits)

lemma draw_lines_text: "list_all is_text (draw_lines env fnt x0 mw lh y ls)"
  by (induction ls arbitrary: y) (simp_all add: Let_def is_text_def)

lemma draw_region_text: "draw_region env i box = Inr ops \<Longrightarrow> list_all is_text ops"
  by (auto simp: draw_region_def Let_def draw_lines_text
      split: if_splits prod.splits option.splits sum.splits)

lemma draw_loop_text:
  "\<exists>draws. snd (draw_loop env i boxes canvas) = canvas @ draws \<and> list_all is_text draws"
proof (induction boxes arbitrary: i canvas)
  case Nil
  then show ?case by simp
next
  case (Cons box boxes)
  show ?case
  proof (cases "draw_region env i box")
    case (Inl e)
    then show ?thesis by simp
  next
    case (Inr ops)
    from Cons.IH [of "Suc i" "canvas @ ops"] obtain draws where
      "snd (draw_loop env (Suc i) boxes (canvas @ ops)) = (canvas @ ops) @ draws"
      "list_all is_text draws" by blast
    with Inr draw_region_text [OF Inr] show ?thesis
      by (intro exI [of _ "ops @ draws"]) simp
  qed
qed

lemma canvas_shape:
  "\<exists>k draws. k \<le> length boxes
     \<and> snd (erase_sentences_from_image env boxes) = map white_rectangle (take k boxes) @ draws
     \<and> list_all is_text draws
     \<and> (k < length boxes \<longrightarrow> draws = [] \<and> fst (erase_sentences_from_image env boxes) = Some ValueError)"
proof (cases "list_all box_ordered boxes")
  case True
  then have e: "erase_sentences_from_image env boxes = draw_loop env 0 boxes (map white_rectangle boxes)"
    by (simp add: erase_sentences_from_image_def erase_loop_result)
  from draw_loop_text [of env 0 boxes "map white_rectangle boxes"] obtain draws where
    "snd (draw_loop env 0 boxes (map white_rectangle boxes)) = map white_rectangle boxes @ draws"
    "list_all is_text draws" by blast
  then show ?thesis
    unfolding e by (intro exI [of _ "length boxes"] exI [of _ draws]) simp
next
  case False
  let ?k = "length (takeWhile box_ordered boxes)"
  from False have e: "erase_sentences_from_image env boxes
      = (Some ValueError, map white_rectangle (takeWhile box_ordered boxes))"
    by (simp add: erase_sentences_from_image_def erase_loop_result)
  have t: "takeWhile box_ordered boxes = take ?k boxes"
    by (rule takeWhile_eq_take)
  have "?k \<le> length boxes" by (rule length_takeWhile_le)
  moreover have "snd (erase_sentences_from_image env boxes) = map white_rectangle (take ?k boxes) @ []"
    unfolding e using t by simp
  ultimately show ?thesis
    using e by (intro exI [of _ ?k] exI [of _ "[]"]) simp
qed

lemma white_rectangle_is_rectangle: "is_rectangle (white_rectangle box)"
  by (simp add: white_rectangle_def is_rectangle_def split: prod.splits)

lemma text_not_rectangle: "is_text d \<Longrightarrow> \<not> is_rectangle d"
  by (cases d) (simp_all add: is_text_def is_rectangle_def)

subsection \<open>Runs of the whole function\<close>

lemmas string_eval = strip_def lstrip_def rstrip_def is_space_def isspace_def ascii_def split_def

lemma strip_hello: "strip (ascii ''Hello world'') = ascii ''Hello world''"
  by (simp add: string_eval)

lemma validate_marhaban: "validate demo_env marhaban = Some marhaban"
proof -
  have "lower demo_env marhaban = marhaban"
    by (simp add: lower_def demo_env_def marhaban_def upt_rec [of 0] upt_rec [of "Suc n" for n]
        upt_rec [of "numeral n" for n] Let_def)
  then show ?thesis
    by (simp add: validate_def invalid_phrases_def) 
       (simp add: marhaban_def string_eval remove_latin_def latin_letter_def)
qed

lemma fit_hello: "fit demo_env marhaban 122 50 = Inr (lay_out demo_env (TrueType 23) marhaban 122)"
proof -
  have "wrap_text marhaban (demo_textbbox (TrueType 23)) 122 = [marhaban]"
    by (simp add: wrap_text_def split_def marhaban_def is_space_def demo_textbbox_def right_def Let_def)
  then have "fits demo_env marhaban 122 50 23"
    by (simp add: fits_def load_font_def truetype_def lay_out_def demo_env_def Let_def
        demo_textbbox_def bottom_def)
  then show ?thesis
    by (simp add: fit_unrolled) (simp add: load_font_def truetype_def demo_env_def)
qed

lemma lay_out_hello:
  "lay_out demo_env (TrueType 23) marhaban 122
     = \<lparr>chosen_font = TrueType 23, wrapped_lines = [marhaban], reshaped_lines = [rev marhaban],
        line_height = 23, total_height = 23\<rparr>"
proof -
  have "wrap_text marhaban (demo_textbbox (TrueType 23)) 122 = [marhaban]"
    by (simp add: wrap_text_def split_def marhaban_def is_space_def demo_textbbox_def right_def Let_def)
  then show ?thesis
    by (simp add: lay_out_def demo_env_def Let_def demo_textbbox_def bottom_def)
qed

lemma draw_hello:
  "draw_region demo_env i hello_box = Inr [DrawText 33 13 (rev marhaban) Black (TrueType 23)]"
proof -
  have t: "translate_openl (chat demo_env i) (ascii ''Hello world'') = marhaban"
    by (simp add: translate_openl_def demo_env_def) (simp add: marhaban_def string_eval)
  have p: "padded (10, 10, 110, 40) = (0, 0, 122, 50)"
    by (simp add: padded_def padding_x_def padding_y_def)
  have w: "right (textbbox demo_env (TrueType 23) (rev marhaban)) = 55"
    by (simp add: demo_env_def demo_textbbox_def right_def marhaban_def)
  show ?thesis
    unfolding draw_region_def hello_box_def
    by (simp add: strip_hello t p too_small_def validate_marhaban fit_hello lay_out_hello w Let_def)
       (simp add: ascii_def isspace_def is_space_def)
qed

lemma fit_low: "fit demo_env marhaban 62 15 = Inr (lay_out demo_env (TrueType 18) marhaban 62)"
proof -
  have w: "sz \<le> 24 \<Longrightarrow> wrap_text marhaban (demo_textbbox (TrueType sz)) 62 = [marhaban]" for sz
    by (simp add: wrap_text_def split_def marhaban_def is_space_def demo_textbbox_def right_def Let_def)
  have "\<not> fits demo_env marhaban 62 15 23" "\<not> fits demo_env marhaban 62 15 21"
    "\<not> fits demo_env marhaban 62 15 19"
    by (simp_all add: fits_def load_font_def truetype_def lay_out_def demo_env_def Let_def w
        demo_textbbox_def bottom_def)
  then show ?thesis
    by (simp add: fit_unrolled) (simp add: demo_env_def)
qed

lemma lay_out_low:
  "lay_out demo_env (TrueType 18) marhaban 62
     = \<lparr>chosen_font = TrueType 18, wrapped_lines = [marhaban], reshaped_lines = [rev marhaban],
        line_height = 18, total_height = 18\<rparr>"
proof -
  have "wrap_text marhaban (demo_textbbox (TrueType 18)) 62 = [marhaban]"
    by (simp add: wrap_text_def split_def marhaban_def is_space_def demo_textbbox_def right_def Let_def)
  then show ?thesis
    by (simp add: lay_out_def demo_env_def Let_def demo_textbbox_def bottom_def)
qed

lemma draw_low:
  "draw_region demo_env i low_box = Inr [DrawText 8 (- 2) (rev marhaban) Black (TrueType 18)]"
proof -
  have t: "translate_openl (chat demo_env i) (ascii ''Hello world'') = marhaban"
    by (simp add: translate_openl_def demo_env_def) (simp add: marhaban_def string_eval)
  have p: "padded (0, 0, 50, 5) = (0, 0, 62, 15)"
    by (simp add: padded_def padding_x_def padding_y_def)
  have w: "right (textbbox demo_env (TrueType 18) (rev marhaban)) = 45"
    by (simp add: demo_env_def demo_textbbox_def right_def marhaban_def)
  show ?thesis
    unfolding draw_region_def low_box_def
    by (simp add: strip_hello t p too_small_def validate_marhaban fit_low lay_out_low w Let_def)
       (simp add: ascii_def isspace_def is_space_def)
qed

lemmas box_eval = draw_rectangle_def padded_def padding_x_def padding_y_def

lemma erase_hello: "erase_loop [hello_box] [] = (None, [Rectangle 0 0 122 50 White])"
  by (simp add: box_eval hello_box_def)

lemma erase_low: "erase_loop [low_box] [] = (None, [Rectangle 0 0 62 15 White])"
  by (simp add: box_eval low_box_def)

lemma erase_hello_low:
  "erase_loop [hello_box, low_box] []
     = (None, [Rectangle 0 0 122 50 White, Rectangle 0 0 62 15 White])"
  by (simp add: box_eval hello_box_def low_box_def)

lemma demo_run:
  "erase_sentences_from_image demo_env [hello_box, low_box]
     = (None, [Rectangle 0 0 122 50 White, Rectangle 0 0 62 15 White,
               DrawText 33 13 (rev marhaban) Black (TrueType 23),
               DrawText 8 (- 2) (rev marhaban) Black (TrueType 18)])"
  unfolding erase_sentences_from_image_def erase_hello_low
  by (simp add: draw_hello draw_low)

text \<open>
  A region whose padded box is inverted stops the function in the first loop: the
  rectangles of the regions before it are on the canvas, and no text is drawn.
\<close>

lemma demo_run_inverted:
  "erase_sentences_from_image env [hello_box, far_box, low_box]
     = (Some ValueError, [Rectangle 0 0 122 50 White])"
  by (simp add: erase_sentences_from_image_def box_eval hello_box_def far_box_def)

text \<open>
  C4. The canvas after \<open>erase_sentences_from_image\<close> is the erase rectangles of the
  first \<open>k\<close> regions, in order, followed by text only; when the first loop stopped early
  (\<open>k\<close> is less than the number of regions) the function left with ValueError and no
  text at all was drawn, so text appears only after every region was erased. In every
  case no rectangle is painted after a text has been drawn.
\<close>

theorem erase_before_draw:
  "(\<exists>k draws. k \<le> length boxes
       \<and> snd (erase_sentences_from_image env boxes) = map white_rectangle (take k boxes) @ draws
       \<and> list_all is_text draws
       \<and> (k < length boxes \<longrightarrow>
            draws = [] \<and> fst (erase_sentences_from_image env boxes) = Some ValueError))
   \<and> (\<forall>i j. i < j \<and> j < length (snd (erase_sentences_from_image env boxes))
         \<and> is_text (snd (erase_sentences_from_image env boxes) ! i)
       \<longrightarrow> \<not> is_rectangle (snd (erase_sentences_from_image env boxes) ! j))"
proof -
  obtain k draws where k: "k \<le> length boxes"
    and c: "snd (erase_sentences_from_image env boxes) = map white_rectangle (take k boxes) @ draws"
    and t: "list_all is_text draws"
    using canvas_shape [of boxes env] by blast
  have n: "length (map white_rectangle (take k boxes)) = k"
    using k by simp
  have e: "\<not> is_rectangle (snd (erase_sentences_from_image env boxes) ! j)"
    if "i < j" "j < length (snd (erase_sentences_from_image env boxes))"
      "is_text (snd (erase_sentences_from_image env boxes) ! i)" for i j
  proof -
    have "\<not> i < k"
    proof
      assume "i < k"
      then have "snd (erase_sentences_from_image env boxes) ! i = white_rectangle (boxes ! i)"
        using k by (simp add: c nth_append)
      with that(3) show False
        using text_not_rectangle white_rectangle_is_rectangle by metis
    qed
    with that(1) have j: "k \<le> j" by simp
    then have "snd (erase_sentences_from_image env boxes) ! j = draws ! (j - k)"
      using n by (simp add: c nth_append)
    moreover have "j - k < length draws" using that(2) j n by (simp add: c)
    ultimately have "is_text (snd (erase_sentences_from_image env boxes) ! j)"
      using t by (simp add: list_all_length)
    then show ?thesis by (rule text_not_rectangle)
  qed
  then have "\<forall>i j. i < j \<and> j < length (snd (erase_sentences_from_image env boxes))
         \<and> is_text (snd (erase_sentences_from_image env boxes) ! i)
       \<longrightarrow> \<not> is_rectangle (snd (erase_sentences_from_image env boxes) ! j)"
    by blast
  from conjI [OF canvas_shape [of boxes env] this] show ?thesis .
qed

theorem erase_before_draw_witness:
  "snd (erase_sentences_from_image demo_env [hello_box, low_box])
     = [Rectangle 0 0 122 50 White, Rectangle 0 0 62 15 White,
        DrawText 33 13 (rev marhaban) Black (TrueType 23),
        DrawText 8 (- 2) (rev marhaban) Black (TrueType 18)]
   \<and> is_text (snd (erase_sentences_from_image demo_env [hello_box, low_box]) ! 2)
   \<and> \<not> is_rectangle (snd (erase_sentences_from_image demo_env [hello_box, low_box]) ! 3)
   \<and> erase_sentences_from_image demo_env [hello_box, far_box, low_box]
       = (Some ValueError, [Rectangle 0 0 122 50 White])"
proof -
  have t: "is_text (snd (erase_sentences_from_image demo_env [hello_box, low_box]) ! 2)"
    by (simp add: demo_run is_text_def)
  have l: "(2::nat) < 3 \<and> 3 < length (snd (erase_sentences_from_image demo_env [hello_box, low_box]))"
    by (simp add: demo_run)
  from erase_before_draw [of "[hello_box, low_box]" demo_env] t l
  have "\<not> is_rectangle (snd (erase_sentences_from_image demo_env [hello_box, low_box]) ! 3)"
    by blast
  with t show ?thesis by (simp add: demo_run demo_run_inverted)
qed

subsection \<open>The erase loop on the output of the extractor\<close>

lemma extractor_box_ordered:
  assumes "paragraph_region env p = Inr (Some r)"
    and "\<forall>v\<in>set (all_vertices p). 0 \<le> fst v \<and> 0 \<le> snd v"
  shows "box_ordered r"
proof -
  from assms(1) have ne: "all_vertices p \<noteq> []" and r: "r_bbox r = extent p"
    using paragraph_region_Some [of env p r] by (simp_all add: region_of_def)
  note o = extent_ordered [OF ne assms(2)]
  show ?thesis
    unfolding box_ordered_corners r extent_def using o by simp
qed

lemma extractor_output_ordered:
  assumes "google_ocr env resp = Inr out"
    and "\<forall>p\<in>set (all_paragraphs resp). \<forall>v\<in>set (all_vertices p). 0 \<le> fst v \<and> 0 \<le> snd v"
  shows "list_all box_ordered out"
proof -
  from assms(1) have ne: "\<forall>p\<in>set (all_paragraphs resp). all_vertices p \<noteq> []"
    and out: "out = map region_of (filter (kept env) (all_paragraphs resp))"
    by (auto simp: google_ocr_result split: if_splits)
  have "box_ordered (region_of p)" if "p \<in> set (all_paragraphs resp)" "kept env p" for p
  proof -
    from that ne have "paragraph_region env p = Inr (Some (region_of p))"
      by (simp add: paragraph_region_returns)
    then show ?thesis using assms(2) that(1) by (intro extractor_box_ordered) auto
  qed
  then show ?thesis unfolding out by (simp add: list_all_iff)
qed

lemma extractor_output_erased:
  assumes "google_ocr env resp = Inr out"
    and "\<forall>p\<in>set (all_paragraphs resp). \<forall>v\<in>set (all_vertices p). 0 \<le> fst v \<and> 0 \<le> snd v"
  shows "erase_loop out canvas = (None, canvas @ map white_rectangle out)"
  using extractor_output_ordered [OF assms] by (simp add: erase_loop_result)

text \<open>
  C6. When the erase loop ends without an exception, the rectangle it erased for each
  region with box (x0, y0, x1, y1) goes from (max 0 (x0 - 12), max 0 (y0 - 10)) to
  (x1 + 12, y1 + 10) and is white, and these rectangles are the first calls on the canvas
  of the whole function, one per region. The loop ends without an exception exactly when
  every one of these rectangles has its second corner right of and below its first, as
  the regions of the extractor have for non-negative vertices
  (\<open>extractor_output_erased\<close>); otherwise \<open>draw.rectangle\<close> raises. For the box
  (10, 10, 110, 40) the rectangle is (0, 0) to (122, 50).
\<close>

theorem erased_rectangle:
  "(erase_loop boxes canvas = (None, canvas') \<longrightarrow>
      canvas' = canvas @ map (\<lambda>box. case r_bbox box of (x0, y0, x1, y1) \<Rightarrow>
                  Rectangle (max 0 (x0 - 12)) (max 0 (y0 - 10)) (x1 + 12) (y1 + 10) White) boxes)
   \<and> (fst (erase_loop boxes canvas) = None \<longleftrightarrow>
        list_all (\<lambda>box. case r_bbox box of (x0, y0, x1, y1) \<Rightarrow>
                  max 0 (x0 - 12) \<le> x1 + 12 \<and> max 0 (y0 - 10) \<le> y1 + 10) boxes)
   \<and> (fst (erase_loop boxes []) = None \<longrightarrow>
        take (length boxes) (snd (erase_sentences_from_image env boxes))
          = map (\<lambda>box. case r_bbox box of (x0, y0, x1, y1) \<Rightarrow>
                  Rectangle (max 0 (x0 - 12)) (max 0 (y0 - 10)) (x1 + 12) (y1 + 10) White) boxes)
   \<and> erase_loop [\<lparr>r_text = t, r_bbox = (10, 10, 110, 40)\<rparr>] [] = (None, [Rectangle 0 0 122 50 White])"
proof -
  have r: "white_rectangle = (\<lambda>box. case r_bbox box of (x0, y0, x1, y1) \<Rightarrow>
                  Rectangle (max 0 (x0 - 12)) (max 0 (y0 - 10)) (x1 + 12) (y1 + 10) White)"
    by (rule ext) (rule white_rectangle_corners)
  have o: "box_ordered = (\<lambda>box. case r_bbox box of (x0, y0, x1, y1) \<Rightarrow>
                  max 0 (x0 - 12) \<le> x1 + 12 \<and> max 0 (y0 - 10) \<le> y1 + 10)"
    by (rule ext) (rule box_ordered_corners)
  have a: "erase_loop boxes canvas = (None, canvas') \<longrightarrow> canvas' = canvas @ map white_rectangle boxes"
    by (simp add: erase_loop_result split: if_splits)
  have b: "fst (erase_loop boxes canvas) = None \<longleftrightarrow> list_all box_ordered boxes"
    by (simp add: erase_loop_result)
  have c: "fst (erase_loop boxes []) = None \<longrightarrow>
        take (length boxes) (snd (erase_sentences_from_image env boxes)) = map white_rectangle boxes"
  proof
    assume "fst (erase_loop boxes []) = None"
    then have "list_all box_ordered boxes" by (simp add: erase_loop_result split: if_splits)
    then have e: "erase_sentences_from_image env boxes = draw_loop env 0 boxes (map white_rectangle boxes)"
      by (simp add: erase_sentences_from_image_def erase_loop_result)
    from draw_loop_text [of env 0 boxes "map white_rectangle boxes"] obtain draws where
      "snd (draw_loop env 0 boxes (map white_rectangle boxes)) = map white_rectangle boxes @ draws"
      by blast
    then show "take (length boxes) (snd (erase_sentences_from_image env boxes)) = map white_rectangle boxes"
      unfolding e by simp
  qed
  have d: "erase_loop [\<lparr>r_text = t, r_bbox = (10, 10, 110, 40)\<rparr>] [] = (None, [Rectangle 0 0 122 50 White])"
    by (simp add: box_eval)
  from conjI [OF a conjI [OF b conjI [OF c d]]] show ?thesis unfolding r o .
qed

theorem erased_rectangle_witness:
  "erase_loop [hello_box] [] = (None, [Rectangle 0 0 122 50 White])
   \<and> fst (erase_loop [hello_box, low_box] []) = None
   \<and> take 2 (snd (erase_sentences_from_image demo_env [hello_box, low_box]))
       = [Rectangle 0 0 122 50 White, Rectangle 0 0 62 15 White]
   \<and> fst (erase_loop [hello_box, far_box, low_box] []) = Some ValueError"
proof -
  have f: "fst (erase_loop [hello_box, low_box] []) = None"
    by (simp only: erase_hello_low fst_conv)
  have "take (length [hello_box, low_box]) (snd (erase_sentences_from_image demo_env [hello_box, low_box]))
       = [Rectangle 0 0 122 50 White, Rectangle 0 0 62 15 White]"
    using f erased_rectangle [where boxes = "[hello_box, low_box]" and canvas = "[]"
        and env = demo_env and t = "[]"]
    by (simp add: hello_box_def low_box_def del: take_Suc_Cons take_Cons_numeral)
  then have b: "take 2 (snd (erase_sentences_from_image demo_env [hello_box, low_box]))
       = [Rectangle 0 0 122 50 White, Rectangle 0 0 62 15 White]"
    by (simp add: numeral_2_eq_2)
  have c: "fst (erase_loop [hello_box, far_box, low_box] []) = Some ValueError"
    by (simp add: box_eval hello_box_def far_box_def)
  from erase_hello f b c show ?thesis by simp
qed

section \<open>The check of the translated text\<close>

lemma lower_ascii:
  assumes "\<forall>c\<in>set s. c < 128"
  shows "lower env s = map ascii_lower s"
proof -
  have "lower env s = concat (map (\<lambda>i. [ascii_lower (s ! i)]) [0..<length s])"
    unfolding lower_def using assms
    by (intro arg_cong [where f = concat] map_cong) (auto simp: ascii_lower_def Let_def)
  also have "\<dots> = map (\<lambda>i. ascii_lower (s ! i)) [0..<length s]"
    by (induction "[0..<length s]") (simp_all add: concat_map_singleton)
  also have "\<dots> = map ascii_lower (map ((!) s) [0..<length s])"
    by simp
  also have "\<dots> = map ascii_lower s"
    by (simp only: map_nth)
  finally show ?thesis .
qed

lemma refusal_codes:
  "refusal = [73, 39, 109, 32, 115, 111, 114, 114, 121, 44, 32, 98, 117, 116, 32, 73, 32, 99,
     97, 110, 39, 116, 32, 97, 115, 115, 105, 115, 116, 32, 119, 105, 116, 104, 32, 116, 104,
     97, 116, 46]"
  by (simp add: refusal_def ascii_def)

lemma lower_refusal:
  "lower env refusal = [105, 39, 109, 32, 115, 111, 114, 114, 121, 44, 32, 98, 117, 116, 32, 105,
     32, 99, 97, 110, 39, 116, 32, 97, 115, 115, 105, 115, 116, 32, 119, 105, 116, 104, 32, 116,
     104, 97, 116, 46]"
proof -
  have "\<forall>c\<in>set refusal. c < 128" by (simp add: refusal_codes)
  then have "lower env refusal = map ascii_lower refusal" by (rule lower_ascii)
  then show ?thesis by (simp add: refusal_codes ascii_lower_def)
qed

lemma refusal_listed: "refusal \<in> set invalid_phrases"
  by (simp add: invalid_phrases_def refusal_def)

lemma refusal_not_matched:
  "\<not> list_ex (\<lambda>p. contains p (lower env refusal)) invalid_phrases"
  unfolding lower_refusal by (simp add: invalid_phrases_def ascii_def)

lemma validate_refusal:
  "validate env refusal = Some leftover"
  unfolding validate_def using refusal_not_matched [of env]
  by (simp add: refusal_codes remove_latin_def latin_letter_def strip_def lstrip_def rstrip_def
      is_space_def isspace_def ascii_def leftover_def)

lemma wrap_leftover:
  "wrap_text leftover (demo_textbbox (TrueType 23)) 122 = [[39, 32, 44, 32, 39, 32, 46]]"
  by (simp add: wrap_text_def split_def leftover_def is_space_def demo_textbbox_def right_def Let_def)

lemma fit_leftover:
  "fit refusing_env leftover 122 50
     = Inr \<lparr>chosen_font = TrueType 23, wrapped_lines = [[39, 32, 44, 32, 39, 32, 46]],
            reshaped_lines = [[46, 32, 39, 32, 44, 32, 39]], line_height = 23, total_height = 23\<rparr>"
proof -
  have l: "lay_out refusing_env (TrueType 23) leftover 122
     = \<lparr>chosen_font = TrueType 23, wrapped_lines = [[39, 32, 44, 32, 39, 32, 46]],
            reshaped_lines = [[46, 32, 39, 32, 44, 32, 39]], line_height = 23, total_height = 23\<rparr>"
    by (simp add: lay_out_def refusing_env_def demo_env_def wrap_leftover Let_def)
       (simp add: demo_textbbox_def bottom_def)
  have f: "load_font refusing_env 23 = TrueType 23"
    by (simp add: load_font_def truetype_def refusing_env_def demo_env_def)
  have "fits refusing_env leftover 122 50 23"
    by (simp add: fits_def f l)
  then show ?thesis by (simp add: fit_unrolled f l)
qed

text \<open>
  C5 fails on the code. The last listed phrase starts with a capital letter and holds
  another, while the translated text is compared in lower case: a translation that is
  this very phrase is not rejected. Its Latin letters are removed, and the punctuation
  that is left is drawn into the erased box.
\<close>

theorem refusal_is_drawn:
  "refusal \<in> set invalid_phrases
   \<and> validate env refusal = Some [39, 32, 44, 32, 32, 32, 39, 32, 32, 32, 46]
   \<and> erase_sentences_from_image refusing_env [hello_box]
       = (None, [Rectangle 0 0 122 50 White,
                 DrawText 22 13 [46, 32, 39, 32, 44, 32, 39] Black (TrueType 23)])"
proof -
  have s: "strip refusal = refusal"
    by (simp add: refusal_codes strip_def lstrip_def rstrip_def is_space_def)
  have t: "translate_openl (chat refusing_env i) (ascii ''Hello world'') = refusal" for i
    by (simp add: translate_openl_def refusing_env_def demo_env_def s)
  have p: "padded (10, 10, 110, 40) = (0, 0, 122, 50)"
    by (simp add: padded_def padding_x_def padding_y_def)
  have w: "right (textbbox refusing_env (TrueType 23) [46, 32, 39, 32, 44, 32, 39]) = 77"
    by (simp add: refusing_env_def demo_env_def demo_textbbox_def right_def)
  have d: "draw_region refusing_env 0 hello_box
      = Inr [DrawText 22 13 [46, 32, 39, 32, 44, 32, 39] Black (TrueType 23)]"
    unfolding draw_region_def hello_box_def
    by (simp add: strip_hello t p too_small_def validate_refusal fit_leftover w Let_def)
       (simp add: ascii_def isspace_def is_space_def)
  have e: "erase_sentences_from_image refusing_env [hello_box]
       = (None, [Rectangle 0 0 122 50 White,
                 DrawText 22 13 [46, 32, 39, 32, 44, 32, 39] Black (TrueType 23)])"
    unfolding erase_sentences_from_image_def erase_hello by (simp add: d)
  from refusal_listed validate_refusal [of env] e show ?thesis
    by (simp add: leftover_def)
qed

section \<open>The font that cannot be opened\<close>

lemma wrap_three_words:
  "wrap_text three_words (demo_textbbox DefaultFont) 62 = [marhaban, marhaban, marhaban]"
  by (simp add: wrap_text_def split_def three_words_def marhaban_def is_space_def demo_textbbox_def
      right_def Let_def)

lemma validate_three_words:
  "validate no_font_env three_words = Some three_words"
proof -
  have "lower no_font_env three_words = three_words"
    by (simp add: lower_def no_font_env_def demo_env_def three_words_def marhaban_def upt_rec [of 0]
        upt_rec [of "Suc n" for n] upt_rec [of "numeral n" for n] Let_def)
  then show ?thesis
    by (simp add: validate_def invalid_phrases_def)
       (simp add: three_words_def marhaban_def string_eval remove_latin_def latin_letter_def)
qed

text \<open>
  C7 fails on the code. With a font file that cannot be opened, every pass of the loop
  falls back to the default font; when none of them fits, the code opens the font file
  at the minimum size without the fallback, and the exception leaves
  \<open>erase_sentences_from_image\<close> after the erase loop: nothing is drawn, and the image
  is not saved.
\<close>

theorem fallback_font_raises:
  "load_font no_font_env 23 = DefaultFont
   \<and> load_font no_font_env 21 = DefaultFont
   \<and> load_font no_font_env 19 = DefaultFont
   \<and> total_height (lay_out no_font_env DefaultFont three_words 62) = 41
   \<and> fit no_font_env three_words 62 15 = Inl OSError
   \<and> erase_sentences_from_image no_font_env [low_box] = (Some OSError, [Rectangle 0 0 62 15 White])"
proof -
  have f: "load_font no_font_env sz = DefaultFont" for sz
    by (simp add: load_font_def truetype_def no_font_env_def)
  have h: "total_height (lay_out no_font_env DefaultFont three_words 62) = 41"
    by (simp add: lay_out_def no_font_env_def demo_env_def wrap_three_words Let_def)
       (simp add: demo_textbbox_def bottom_def)
  have n: "\<not> fits no_font_env three_words 62 15 sz" for sz
    by (simp add: fits_def f h)
  have r: "fit no_font_env three_words 62 15 = Inl OSError"
    by (simp add: fit_unrolled n) (simp add: no_font_env_def)
  have t: "translate_openl (chat no_font_env i) (ascii ''Hello world'') = three_words" for i
    by (simp add: translate_openl_def no_font_env_def demo_env_def)
       (simp add: three_words_def marhaban_def string_eval)
  have p: "padded (0, 0, 50, 5) = (0, 0, 62, 15)"
    by (simp add: padded_def padding_x_def padding_y_def)
  have d: "draw_region no_font_env 0 low_box = Inl OSError"
    unfolding draw_region_def low_box_def
    by (simp add: strip_hello t p too_small_def validate_three_words r Let_def)
       (simp add: ascii_def isspace_def is_space_def)
  have e: "erase_sentences_from_image no_font_env [low_box] = (Some OSError, [Rectangle 0 0 62 15 White])"
    unfolding erase_sentences_from_image_def erase_low by (simp add: d)
  from f h r e show ?thesis by simp
qed

end
